theory Spec2Isabelle
  imports Main "HOL-Library.AList"
begin

section \<open>Values generated from OpenAPI schemas (internal/module/openapi.go)\<close>

subsection \<open>Data model\<close>

text \<open>
  A Go value of type \<^verbatim>\<open>any\<close> as the JSON and YAML decoders produce it: the nil
  interface, a scalar, a \<^verbatim>\<open>[]any\<close> or a \<^verbatim>\<open>map[string]any\<close>. A Go map is an
  association list read through \<^const>\<open>map_of\<close> and written with \<^const>\<open>AList.update\<close>;
  the order of the list stands for the unspecified iteration order of the Go map.
  Numbers are carried around by the code and never computed with.
\<close>

datatype val =
    VNil
  | VBool bool
  | VNum int
  | VStr string
  | VSeq "val list"
  | VMap "(string \<times> val) list"

type_synonym vmap = "(string \<times> val) list"

text \<open>
  The fields of \<^verbatim>\<open>spec.Schema\<close> that the generator reads. \<^verbatim>\<open>Properties\<close> is a Go map
  (\<open>None\<close> is the nil map), \<^verbatim>\<open>Items\<close> is a pointer to a \<^verbatim>\<open>SchemaOrArray\<close> whose
  \<^verbatim>\<open>Schema\<close> field is a pointer again, \<^verbatim>\<open>Default\<close> is an interface value
  (\<^const>\<open>VNil\<close> when unset), and \<^verbatim>\<open>OneOf\<close>, \<^verbatim>\<open>AllOf\<close>, \<^verbatim>\<open>AnyOf\<close> are slices that
  the code compares with nil (\<open>None\<close> is the nil slice, \<open>Some []\<close> an empty one).
\<close>

datatype schema = Schema
  (Type: "string list")
  (Properties: "(string \<times> schema) list option")
  (Items: "schema option option")
  (Enum: "val list")
  (Default: val)
  (Extensions: "(string \<times> val) list")
  (OneOf: "schema list option")
  (AllOf: "schema list option")
  (AnyOf: "schema list option")

text \<open>
  What a call can end with besides a result: an error value, returned by the code or
  by a library it calls, or a runtime panic.
\<close>

datatype error =
    ErrDifferentArgumentsTypes
  | ErrNilArguments
  | ErrExternal string
  | ErrCannotFindValuesSchema string
  | ErrWrap string error

datatype failure =
    Err error
  | PanicIndexOutOfRange
  | PanicNilDereference

definition ExamplesKey :: string where
  "ExamplesKey = ''x-examples''"

definition ArrayObject :: string where
  "ArrayObject = ''array''"

definition ObjectKey :: string where
  "ObjectKey = ''object''"

text \<open>Indexing a Go map of interface values: a missing key reads as nil.\<close>

definition index :: "vmap \<Rightarrow> string \<Rightarrow> val" where
  "index m k = (case map_of m k of None \<Rightarrow> VNil | Some v \<Rightarrow> v)"

text \<open>Ranging over a map that may be nil, and over a slice that may be nil.\<close>

definition entries :: "('k \<times> 'v) list option \<Rightarrow> ('k \<times> 'v) list" where
  "entries m = (case m of None \<Rightarrow> [] | Some ps \<Rightarrow> ps)"

definition elems :: "'a list option \<Rightarrow> 'a list" where
  "elems s = (case s of None \<Rightarrow> [] | Some xs \<Rightarrow> xs)"

text \<open>\<^verbatim>\<open>spec.StringOrArray.Contains\<close>.\<close>

definition Contains :: "string list \<Rightarrow> string \<Rightarrow> bool" where
  "Contains s v = (v \<in> set s)"

text \<open>The zero value \<^verbatim>\<open>spec.Schema{}\<close>.\<close>

definition zero_schema :: schema where
  "zero_schema = Schema [] None None [] VNil [] None None None"

subsection \<open>The merge of the mergo library\<close>

text \<open>
  \<^verbatim>\<open>mergo.Merge(&dst, src, mergo.WithOverride)\<close> of the library dario.cat/mergo, on a
  destination of type \<^verbatim>\<open>map[string]any\<close>. The library is a dependency of the
  repository, and its sources are not part of it; what follows is the case
  \<^verbatim>\<open>reflect.Map\<close> of the library's function \<^verbatim>\<open>deepMerge\<close> (version 1, file merge.go) with
  \<^verbatim>\<open>Overwrite\<close> set, on the values that a JSON decoder produces. The function ranges
  over \<^verbatim>\<open>src.MapKeys()\<close>. When the source element and the destination element are
  both maps, it calls itself on the two elements, so that the source map is merged
  into the destination map by the same procedure. In every other case (the key is
  missing in the destination, or one of the two elements is not a map) it ends the
  round with \<^verbatim>\<open>dst.SetMapIndex(key, srcElement)\<close>: the destination element is set to the
  source element. Keys of the destination that the source does not have stay as they
  are. \<^verbatim>\<open>Merge\<close> itself refuses a source whose type is not the type of the destination
  with \<^verbatim>\<open>ErrDifferentArgumentsTypes\<close>, and a nil source with \<^verbatim>\<open>ErrNilArguments\<close>.
\<close>

fun deepMerge :: "vmap \<Rightarrow> vmap \<Rightarrow> vmap"
  and mergeElement :: "vmap \<Rightarrow> string \<Rightarrow> val \<Rightarrow> vmap" where
  "deepMerge dst [] = dst"
| "deepMerge dst ((key, srcElement) # src) = deepMerge (mergeElement dst key srcElement) src"
| "mergeElement dst key (VMap srcMap) =
     (case map_of dst key of
        Some (VMap dstMap) \<Rightarrow> AList.update key (VMap (deepMerge dstMap srcMap)) dst
      | _ \<Rightarrow> AList.update key (VMap srcMap) dst)"
| "mergeElement dst key srcElement = AList.update key srcElement dst"

text \<open>The element that the merge leaves under a key of the source, given the element
  that the destination had there.\<close>

definition mergedElement :: "val \<Rightarrow> val option \<Rightarrow> val" where
  "mergedElement srcElement dstElement =
     (case srcElement of
        VMap srcMap \<Rightarrow>
          (case dstElement of
             Some (VMap dstMap) \<Rightarrow> VMap (deepMerge dstMap srcMap)
           | _ \<Rightarrow> VMap srcMap)
      | _ \<Rightarrow> srcElement)"

definition mergo_Merge :: "vmap option \<Rightarrow> val \<Rightarrow> failure + vmap" where
  "mergo_Merge dst src =
     (case src of
        VNil \<Rightarrow> Inl (Err ErrNilArguments)
      | VMap srcMap \<Rightarrow> Inr (deepMerge (entries dst) srcMap)
      | _ \<Rightarrow> Inl (Err ErrDifferentArgumentsTypes))"

subsection \<open>mergeSchemas\<close>

text \<open>
  \<^verbatim>\<open>deepcopy.Copy\<close> returns a structurally equal value that shares nothing with its
  argument; on values without identity that is the argument.
\<close>

definition Copy :: "schema \<Rightarrow> schema" where
  "Copy s = s"

text \<open>Indexing a \<^verbatim>\<open>map[string]spec.Schema\<close>: a missing key reads as the zero value.\<close>

definition index_schema :: "(string \<times> schema) list \<Rightarrow> string \<Rightarrow> schema" where
  "index_schema m k = (case map_of m k of None \<Rightarrow> zero_schema | Some p \<Rightarrow> p)"

text \<open>
  One round of the loop over the branches: the inner loop
  \<^verbatim>\<open>for key := range schema.Properties { rootSchema.Properties[key] = schema.Properties[key] }\<close>,
  then the three assignments.
\<close>

definition overlay :: "(string \<times> schema) list \<Rightarrow> (string \<times> schema) list \<Rightarrow> (string \<times> schema) list" where
  "overlay branchProps rootProps =
     fold (\<lambda>key. AList.update key (index_schema branchProps key)) (map fst branchProps) rootProps"

definition mergeStep :: "schema \<Rightarrow> schema \<Rightarrow> schema" where
  "mergeStep branch rootSchema =
     Schema (Type rootSchema)
       (Some (overlay (entries (Properties branch)) (entries (Properties rootSchema))))
       (Items rootSchema) (Enum rootSchema) (Default rootSchema) (Extensions rootSchema)
       (OneOf branch) (AllOf branch) (AnyOf branch)"

definition mergeSchemas :: "schema option \<Rightarrow> schema list \<Rightarrow> schema" where
  "mergeSchemas rootSchema schemas =
     (let r0 = (case rootSchema of None \<Rightarrow> zero_schema | Some s \<Rightarrow> s);
          r1 = Schema (Type r0)
                 (case Properties r0 of None \<Rightarrow> Some [] | Some ps \<Rightarrow> Some ps)
                 (Items r0) (Enum r0) (Default r0) (Extensions r0)
                 None None None
      in fold mergeStep schemas r1)"

subsection \<open>The generator\<close>

text \<open>\<^verbatim>\<open>parseEnum\<close> reads \<^verbatim>\<open>prop.Enum[0]\<close>, which panics on an empty slice.\<close>

definition parseEnum :: "string \<Rightarrow> schema \<Rightarrow> vmap \<Rightarrow> failure + vmap" where
  "parseEnum key prop result =
     (case Enum prop of
        [] \<Rightarrow> Inl PanicIndexOutOfRange
      | e # _ \<Rightarrow> Inr (AList.update key (if Default prop \<noteq> VNil then Default prop else e) result))"

text \<open>Storing a \<^verbatim>\<open>map[string]any\<close> in an interface value; a nil map reads as the empty
  map.\<close>

definition of_map :: "vmap option \<Rightarrow> val" where
  "of_map t = VMap (entries t)"

text \<open>
  The recursion follows the schema tree, except that \<^verbatim>\<open>parseOneOf\<close> and
  \<^verbatim>\<open>parseAnyOf\<close> recurse into a merged node. Every property of the merged node is a
  property of the node or of one of its branches, so the largest property to visit
  still gets smaller.
\<close>

fun bound :: "(string \<times> schema) list \<Rightarrow> nat" where
  "bound [] = 0"
| "bound ((k, p) # ps) = max (Suc (size p)) (bound ps)"

definition bound_ptr :: "schema option \<Rightarrow> nat" where
  "bound_ptr s = (case s of None \<Rightarrow> 0 | Some n \<Rightarrow> bound (entries (Properties n)))"

lemma bound_ge: "(k, p) \<in> set ps \<Longrightarrow> Suc (size p) \<le> bound ps"
  by (induction ps) auto

lemma bound_le: "(\<And>k p. (k, p) \<in> set ps \<Longrightarrow> Suc (size p) \<le> n) \<Longrightarrow> bound ps \<le> n"
proof (induction ps)
  case Nil
  then show ?case by simp
next
  case (Cons kp ps)
  obtain k p where kp: "kp = (k, p)" by (cases kp)
  have "Suc (size p) \<le> n"
    using Cons.prems [of k p] kp by simp
  moreover have "bound ps \<le> n"
    by (rule Cons.IH) (use Cons.prems in auto)
  ultimately show ?case using kp by simp
qed

lemma bound_tl: "bound ps \<le> bound (kp # ps)"
  by (cases kp) simp

lemma size_property: "(k, q) \<in> set (entries (Properties p)) \<Longrightarrow> Suc (size q) < size p"
proof (cases p)
  case (Schema ty P it en df ex oo aa nn)
  assume kq: "(k, q) \<in> set (entries (Properties p))"
  have le: "(k, q) \<in> set ps \<Longrightarrow> Suc (size q) < Suc (size_list (size_prod (\<lambda>_. 0) size) ps)"
    for ps :: "(string \<times> schema) list"
    by (induction ps) auto
  show ?thesis
  proof (cases P)
    case None
    then show ?thesis using Schema kq by (simp add: entries_def)
  next
    case (Some ps)
    then show ?thesis using Schema kq le [of ps] by (simp add: entries_def)
  qed
qed

lemma size_branch:
  assumes "b \<in> set (elems bs)" and "bs = OneOf p \<or> bs = AnyOf p"
  shows "size b < size p"
proof (cases p)
  case (Schema ty P it en df ex oo aa nn)
  have le: "b \<in> set xs \<Longrightarrow> size b < size_list size xs" for xs :: "schema list"
    by (induction xs) auto
  have opt: "b \<in> set (elems xs) \<Longrightarrow> size b < size_option (size_list size) xs"
    for xs :: "schema list option"
    using le by (cases xs) (auto simp: elems_def less_Suc_eq)
  from assms(2) show ?thesis
  proof
    assume "bs = OneOf p"
    then show ?thesis using Schema opt [of oo] assms(1) by simp
  next
    assume "bs = AnyOf p"
    then show ?thesis using Schema opt [of nn] assms(1) by simp
  qed
qed

lemma size_Items: "Items p = Some (Some s) \<Longrightarrow> size s < size p"
  by (cases p) simp

lemma set_update_subset: "set (AList.update k v ps) \<subseteq> insert (k, v) (set ps)"
  by (induction ps) auto

lemma index_schema_mem: "k \<in> fst ` set m \<Longrightarrow> (k, index_schema m k) \<in> set m"
proof -
  assume "k \<in> fst ` set m"
  then obtain p where "map_of m k = Some p"
    by (metis domD dom_map_of_conv_image_fst)
  then show ?thesis
    by (simp add: index_schema_def map_of_SomeD)
qed

lemma set_fold_update:
  "set ks \<subseteq> fst ` set m \<Longrightarrow>
   set (fold (\<lambda>key. AList.update key (index_schema m key)) ks ps) \<subseteq> set ps \<union> set m"
proof (induction ks arbitrary: ps)
  case Nil
  then show ?case by simp
next
  case (Cons k ks)
  have "set (fold (\<lambda>key. AList.update key (index_schema m key)) ks (AList.update k (index_schema m k) ps))
          \<subseteq> set (AList.update k (index_schema m k) ps) \<union> set m"
    using Cons by simp
  moreover have "set (AList.update k (index_schema m k) ps) \<subseteq> insert (k, index_schema m k) (set ps)"
    by (rule set_update_subset)
  moreover have "(k, index_schema m k) \<in> set m"
    using Cons.prems by (simp add: index_schema_mem)
  ultimately show ?case by auto
qed

lemma set_overlay: "set (overlay bp rp) \<subseteq> set rp \<union> set bp"
  unfolding overlay_def by (rule set_fold_update) simp

lemma set_fold_mergeStep:
  "set (entries (Properties (fold mergeStep bs r)))
     \<subseteq> set (entries (Properties r)) \<union> (\<Union>b \<in> set bs. set (entries (Properties b)))"
proof (induction bs arbitrary: r)
  case Nil
  then show ?case by simp
next
  case (Cons b bs)
  have "set (entries (Properties (mergeStep b r)))
          \<subseteq> set (entries (Properties r)) \<union> set (entries (Properties b))"
    using set_overlay [of "entries (Properties b)" "entries (Properties r)"]
    by (simp add: mergeStep_def entries_def)
  then show ?case
    using Cons.IH [of "mergeStep b r"] by auto
qed

lemma set_mergeSchemas:
  "set (entries (Properties (mergeSchemas (Some s) bs)))
     \<subseteq> set (entries (Properties s)) \<union> (\<Union>b \<in> set bs. set (entries (Properties b)))"
proof -
  let ?r1 = "Schema (Type s) (case Properties s of None \<Rightarrow> Some [] | Some ps \<Rightarrow> Some ps)
               (Items s) (Enum s) (Default s) (Extensions s) None None None"
  have "entries (Properties ?r1) = entries (Properties s)"
    by (cases "Properties s") (simp_all add: entries_def)
  then show ?thesis
    using set_fold_mergeStep [of bs ?r1] by (simp add: mergeSchemas_def)
qed

lemma bound_merged:
  assumes "bs = OneOf p \<or> bs = AnyOf p"
  shows "bound_ptr (Some (mergeSchemas (Some (Copy p)) (elems bs))) < size p"
proof -
  have "Suc (size q) \<le> size p - 1"
    if "(k, q) \<in> set (entries (Properties (mergeSchemas (Some p) (elems bs))))" for k q
  proof -
    from that set_mergeSchemas [of p "elems bs"]
    consider "(k, q) \<in> set (entries (Properties p))"
      | b where "b \<in> set (elems bs)" "(k, q) \<in> set (entries (Properties b))"
      by auto
    then show ?thesis
    proof cases
      case 1
      then show ?thesis using size_property [of k q p] by simp
    next
      case 2
      then show ?thesis
        using size_property [of k q b] size_branch [of b bs p] assms by simp
    qed
  qed
  then have "bound (entries (Properties (mergeSchemas (Some p) (elems bs)))) \<le> size p - 1"
    by (rule bound_le)
  moreover have "0 < size p"
    by (cases p) simp
  ultimately show ?thesis
    by (simp add: bound_ptr_def Copy_def)
qed

lemma bound_ptr_lt: "bound_ptr (Some s) < size s"
proof -
  have "bound (entries (Properties s)) \<le> size s - 1"
    by (rule bound_le) (use size_property in fastforce)
  moreover have "0 < size s"
    by (cases s) simp
  ultimately show ?thesis
    by (simp add: bound_ptr_def)
qed

text \<open>The measure of the recursion, on the arguments of the eight functions below.\<close>

definition parse_measure ::
  "((schema option + (string \<times> schema) list \<times> vmap) + (string \<times> schema \<times> vmap) + (string \<times> schema \<times> vmap))
   + ((string \<times> schema \<times> vmap) + (string \<times> schema \<times> vmap)) + (string \<times> schema \<times> vmap) + (string \<times> schema \<times> vmap)
   \<Rightarrow> nat \<times> nat" where
  "parse_measure =
     case_sum
       (case_sum
          (case_sum (\<lambda>s. (bound_ptr s, Suc (length (entries (case s of None \<Rightarrow> None | Some n \<Rightarrow> Properties n)))))
                    (\<lambda>(ps, r). (bound ps, length ps)))
          (case_sum (\<lambda>(k, p, r). (size p, 1)) (\<lambda>(k, p, r). (size p, 0))))
       (case_sum
          (case_sum (\<lambda>(k, p, r). (size p, 0)) (\<lambda>(k, p, r). (size p, 0)))
          (case_sum (\<lambda>(k, p, r). (size p, 0)) (\<lambda>(k, p, r). (size p, 0))))"

text \<open>
  The functions of the generator, with the result map passed in and returned.
  \<^verbatim>\<open>parseProperties_loop\<close> is the loop of \<^verbatim>\<open>parseProperties\<close> over the entries
  of the \<^verbatim>\<open>Properties\<close> map. A nil pointer dereference and an index out of range are
  panics.
\<close>

function parseProperties :: "schema option \<Rightarrow> failure + vmap option"
  and parseProperties_loop :: "(string \<times> schema) list \<Rightarrow> vmap \<Rightarrow> failure + vmap"
  and parseProperty :: "string \<Rightarrow> schema \<Rightarrow> vmap \<Rightarrow> failure + vmap"
  and parseExamples :: "string \<Rightarrow> schema \<Rightarrow> vmap \<Rightarrow> failure + vmap"
  and parseObject :: "string \<Rightarrow> schema \<Rightarrow> vmap \<Rightarrow> failure + vmap"
  and parseArray :: "string \<Rightarrow> schema \<Rightarrow> vmap \<Rightarrow> failure + vmap"
  and parseOneOf :: "string \<Rightarrow> schema \<Rightarrow> vmap \<Rightarrow> failure + vmap"
  and parseAnyOf :: "string \<Rightarrow> schema \<Rightarrow> vmap \<Rightarrow> failure + vmap"
where
  "parseProperties None = Inr None"
| "parseProperties (Some tempNode) =
     (case parseProperties_loop (entries (Properties tempNode)) [] of
        Inl err \<Rightarrow> Inl err
      | Inr result \<Rightarrow> Inr (Some result))"
| "parseProperties_loop [] result = Inr result"
| "parseProperties_loop ((key, p) # rest) result =
     (case parseProperty key p result of
        Inl err \<Rightarrow> Inl err
      | Inr result' \<Rightarrow> parseProperties_loop rest result')"
| "parseProperty key prop result =
     (if index (Extensions prop) ExamplesKey \<noteq> VNil then parseExamples key prop result
      else if length (Enum prop) > 0 then parseEnum key prop result
      else if Contains (Type prop) ObjectKey then parseObject key prop result
      else if Default prop \<noteq> VNil then Inr (AList.update key (Default prop) result)
      else if Contains (Type prop) ArrayObject \<and> Items prop \<noteq> None \<and> Items prop \<noteq> Some None
        then parseArray key prop result
      else if AllOf prop \<noteq> None then Inr result
      else if OneOf prop \<noteq> None then parseOneOf key prop result
      else if AnyOf prop \<noteq> None then parseAnyOf key prop result
      else Inr result)"
| "parseExamples key prop result =
     (case (case index (Extensions prop) ExamplesKey of
              VSeq conv \<Rightarrow> (case conv of [] \<Rightarrow> Inl PanicIndexOutOfRange | e # _ \<Rightarrow> Inr e)
            | VMap conv \<Rightarrow> Inr (VMap conv)
            | _ \<Rightarrow> Inr VNil) of
        Inl err \<Rightarrow> Inl err
      | Inr example \<Rightarrow>
          if example \<noteq> VNil then
            if Contains (Type prop) ObjectKey then
              (case parseProperties (Some prop) of
                 Inl err \<Rightarrow> Inl err
               | Inr t \<Rightarrow>
                   (case mergo_Merge t example of
                      Inl err \<Rightarrow> Inl err
                    | Inr t' \<Rightarrow> Inr (AList.update key (VMap t') result)))
            else Inr (AList.update key example result)
          else Inr result)"
| "parseObject key prop result =
     (case parseProperties (Some prop) of
        Inl err \<Rightarrow> Inl err
      | Inr t \<Rightarrow> Inr (AList.update key (of_map t) result))"
| "parseArray key prop result =
     (case Items prop of
        None \<Rightarrow> Inl PanicNilDereference
      | Some None \<Rightarrow> Inl PanicNilDereference
      | Some (Some itemsSchema) \<Rightarrow>
          if Default itemsSchema \<noteq> VNil then Inr (AList.update key (Default itemsSchema) result)
          else
            (case parseProperties (Some itemsSchema) of
               Inl err \<Rightarrow> Inl err
             | Inr t \<Rightarrow>
                 (case t of
                    None \<Rightarrow> Inr result
                  | Some m \<Rightarrow> Inr (AList.update key (VMap m) result))))"
| "parseOneOf key prop result =
     (let downwardSchema = Copy prop;
          mergedSchema = mergeSchemas (Some downwardSchema) (elems (OneOf prop))
      in case parseProperties (Some mergedSchema) of
           Inl err \<Rightarrow> Inl err
         | Inr t \<Rightarrow> Inr (AList.update key (of_map t) result))"
| "parseAnyOf key prop result =
     (let downwardSchema = Copy prop;
          mergedSchema = mergeSchemas (Some downwardSchema) (elems (AnyOf prop))
      in case parseProperties (Some mergedSchema) of
           Inl err \<Rightarrow> Inl err
         | Inr t \<Rightarrow> Inr (AList.update key (of_map t) result))"
  by pat_completeness auto
termination
proof (relation "inv_image (less_than <*lex*> less_than) parse_measure", goal_cases)
  case 1
  show ?case by (simp add: wf_lex_prod)
next
  case (2 tempNode)
  show ?case by (simp add: parse_measure_def bound_ptr_def)
next
  case (3 key p rest result)
  show ?case by (simp add: parse_measure_def less_max_iff_disj)
next
  case (4 key p rest result b)
  show ?case
    using bound_tl [of rest "(key, p)"] by (auto simp: parse_measure_def)
next
  case (5 key pr result)
  show ?case by (simp add: parse_measure_def)
next
  case (6 key pr result)
  show ?case by (simp add: parse_measure_def)
next
  case (7 key pr result)
  show ?case by (simp add: parse_measure_def)
next
  case (8 key pr result)
  show ?case by (simp add: parse_measure_def)
next
  case (9 key pr result)
  show ?case by (simp add: parse_measure_def)
next
  case (10 key pr result)
  show ?case using bound_ptr_lt [of pr] by (simp add: parse_measure_def)
next
  case (11 key pr result)
  show ?case using bound_ptr_lt [of pr] by (simp add: parse_measure_def)
next
  case (12 key pr result x2 itemsSchema)
  show ?case
    using bound_ptr_lt [of itemsSchema] size_Items [of pr itemsSchema] "12"
    by (simp add: parse_measure_def)
next
  case (13 key pr result downwardSchema mergedSchema)
  show ?case using bound_merged [of "OneOf pr" pr] "13" by (simp add: parse_measure_def)
next
  case (14 key pr result downwardSchema mergedSchema)
  show ?case using bound_merged [of "AnyOf pr" pr] "14" by (simp add: parse_measure_def)
qed

text \<open>
  What a call of \<^verbatim>\<open>parseProperty\<close> does to the result map, given what the property
  resolves to: a failure, no value (the map is left as it is), or one value written
  under the key.
\<close>

definition put :: "string \<Rightarrow> failure + val option \<Rightarrow> vmap \<Rightarrow> failure + vmap" where
  "put key w result =
     (case w of
        Inl err \<Rightarrow> Inl err
      | Inr None \<Rightarrow> Inr result
      | Inr (Some v) \<Rightarrow> Inr (AList.update key v result))"

text \<open>
  The properties for which \<^verbatim>\<open>parseProperty\<close> returns without a write, read off its
  branches. Either \<^verbatim>\<open>x-examples\<close> is set and \<^verbatim>\<open>parseExamples\<close> finds no example in it
  (the value is a scalar, or a sequence whose first element is nil), or no case of
  the switch before \<^verbatim>\<open>allOf\<close> applies and the property has \<^verbatim>\<open>allOf\<close> set or neither
  \<^verbatim>\<open>oneOf\<close> nor \<^verbatim>\<open>anyOf\<close>.
\<close>

definition yields_no_value :: "schema \<Rightarrow> bool" where
  "yields_no_value p =
     (if index (Extensions p) ExamplesKey \<noteq> VNil then
        (case index (Extensions p) ExamplesKey of
           VSeq conv \<Rightarrow> (case conv of [] \<Rightarrow> False | e # _ \<Rightarrow> e = VNil)
         | VMap conv \<Rightarrow> False
         | _ \<Rightarrow> True)
      else Enum p = [] \<and> \<not> Contains (Type p) ObjectKey \<and> Default p = VNil
           \<and> \<not> (Contains (Type p) ArrayObject \<and> Items p \<noteq> None \<and> Items p \<noteq> Some None)
           \<and> (AllOf p \<noteq> None \<or> (OneOf p = None \<and> AnyOf p = None)))"

subsection \<open>The entry point\<close>

record OpenAPIValuesGenerator =
  rootSchema :: "schema option"

definition NewOpenAPIValuesGenerator :: "schema option \<Rightarrow> OpenAPIValuesGenerator" where
  "NewOpenAPIValuesGenerator schema = \<lparr>rootSchema = schema\<rparr>"

definition Do :: "OpenAPIValuesGenerator \<Rightarrow> failure + vmap option" where
  "Do g = parseProperties (rootSchema g)"

text \<open>
  \<^verbatim>\<open>applyDigests\<close> merges into the map it is given and drops the error of the merge.
  The map is passed by value: when it is nil, the merge allocates a map that only the
  local variable holds, and the caller's map stays nil.
\<close>

definition applyDigests :: "vmap \<Rightarrow> vmap option \<Rightarrow> vmap option" where
  "applyDigests digests values =
     (let obj = [(''global'', VMap [(''modulesImages'', VMap [(''digests'', VMap digests)])])]
      in case values of
           None \<Rightarrow> None
         | Some v \<Rightarrow>
             (case mergo_Merge (Some v) (VMap obj) of
                Inl _ \<Rightarrow> Some v
              | Inr merged \<Rightarrow> Some merged))"


text \<open>
  The module and the collaborators of the entry point are not part of the generator:
  the module gives its name, namespace and chart metadata, and the results of the
  calls that load the schemas, camelize the name, look at the digests file and give
  the default capabilities and digests are taken as they come.
\<close>

record 'c Module =
  GetName :: string
  GetNamespace :: string
  GetMetadata :: 'c

record SchemaStorage =
  Schemas :: "(string \<times> schema option) list option"

record ValuesValidator =
  GlobalSchemaStorage :: SchemaStorage
  ModuleSchemaStorages :: "(string \<times> SchemaStorage) list"

record collaborators =
  NewValuesValidator :: "failure + ValuesValidator option"
  ToLowerCamel :: string
  digestsFileMissingOrEmpty :: bool
  getModulesImagesDigestsFromLocalPath :: "failure + vmap"
  DefaultImagesDigests :: vmap
  DefaultCapabilities :: "string list"

definition GetModulesImagesDigests :: "collaborators \<Rightarrow> failure + vmap" where
  "GetModulesImagesDigests c =
     (let search = digestsFileMissingOrEmpty c
      in if search then Inr (DefaultImagesDigests c)
         else (case getModulesImagesDigestsFromLocalPath c of
                 Inl err \<Rightarrow> Inl err
               | Inr modulesDigests \<Rightarrow> Inr modulesDigests))"

text \<open>The map that \<^verbatim>\<open>helmFormatModuleImages\<close> returns, with its four fixed keys.\<close>

record 'c top =
  Chart :: 'c
  Capabilities :: "string list"
  Release :: vmap
  Values :: "vmap option"

definition helmFormatModuleImages ::
  "'c Module \<Rightarrow> collaborators \<Rightarrow> vmap option \<Rightarrow> failure + 'c top" where
  "helmFormatModuleImages m c rawValues =
     (let vers = DefaultCapabilities c @ [''autoscaling.k8s.io/v1/VerticalPodAutoscaler'']
      in case GetModulesImagesDigests c of
           Inl err \<Rightarrow> Inl err
         | Inr digests \<Rightarrow>
             Inr \<lparr>Chart = GetMetadata m,
                  Capabilities = vers,
                  Release = [(''Name'', VStr (GetName m)),
                             (''Namespace'', VStr (GetNamespace m)),
                             (''IsUpgrade'', VBool True),
                             (''IsInstall'', VBool True),
                             (''Revision'', VNum 0),
                             (''Service'', VStr ''Helm'')],
                  Values = applyDigests digests rawValues\<rparr>)"

text \<open>\<^verbatim>\<open>fmt.Errorf("...: %w", err)\<close> wraps an error; a panic is not an error value and
  passes through.\<close>

definition Errorf :: "string \<Rightarrow> failure \<Rightarrow> failure" where
  "Errorf msg f = (case f of Err e \<Rightarrow> Err (ErrWrap msg e) | _ \<Rightarrow> f)"

definition set_Default :: "val \<Rightarrow> schema \<Rightarrow> schema" where
  "set_Default v s =
     Schema (Type s) (Properties s) (Items s) (Enum s) v (Extensions s) (OneOf s) (AllOf s) (AnyOf s)"

definition set_Properties :: "(string \<times> schema) list option \<Rightarrow> schema \<Rightarrow> schema" where
  "set_Properties ps s =
     Schema (Type s) ps (Items s) (Enum s) (Default s) (Extensions s) (OneOf s) (AllOf s) (AnyOf s)"

definition ComposeValuesFromSchemas :: "'c Module \<Rightarrow> collaborators \<Rightarrow> failure + 'c top option" where
  "ComposeValuesFromSchemas m c =
     (case NewValuesValidator c of
        Inl err \<Rightarrow> Inl (Errorf ''schemas load'' err)
      | Inr None \<Rightarrow> Inr None
      | Inr (Some valueValidator) \<Rightarrow>
          (let camelizedModuleName = ToLowerCamel c
           in case map_of (ModuleSchemaStorages valueValidator) (GetName m) of
                None \<Rightarrow> Inr None
              | Some schema \<Rightarrow>
                  (case Schemas schema of
                     None \<Rightarrow> Inr None
                   | Some schemas \<Rightarrow>
                       (case map_of schemas ''values'' of
                          None \<Rightarrow> Inl (Err (ErrCannotFindValuesSchema (GetName m)))
                        | Some None \<Rightarrow> Inl (Err (ErrCannotFindValuesSchema (GetName m)))
                        | Some (Some values) \<Rightarrow>
                            (let moduleSchema = set_Default (VMap []) values;
                                 globalSchema =
                                   set_Default (VMap [])
                                     (case map_of (entries (Schemas (GlobalSchemaStorage valueValidator))) ''values'' of
                                        Some (Some values') \<Rightarrow> values'
                                      | _ \<Rightarrow> zero_schema);
                                 combinedSchema =
                                   set_Properties
                                     (Some (AList.update ''global'' globalSchema
                                              [(camelizedModuleName, moduleSchema)]))
                                     zero_schema
                             in case Do (NewOpenAPIValuesGenerator (Some combinedSchema)) of
                                  Inl err \<Rightarrow> Inl (Errorf ''generate values'' err)
                                | Inr rawValues \<Rightarrow>
                                    (case helmFormatModuleImages m c rawValues of
                                       Inl err \<Rightarrow> Inl err
                                     | Inr t \<Rightarrow> Inr (Some t)))))))"

section \<open>The generator on a store of map objects\<close>

text \<open>
  A Go map is a reference: an interface value that holds a \<^verbatim>\<open>map[string]any\<close> holds the
  address of a map object, and two values can hold the same address. To see which
  map objects a call writes to, the generator is given a second time, on values with
  addresses and a store of map objects. The schema nodes themselves stay values:
  the only writes to a schema node are those of \<^verbatim>\<open>mergeSchemas\<close>, on the node that
  \<^verbatim>\<open>deepcopy.Copy\<close> returns.
\<close>

subsection \<open>Values, store and schema\<close>

datatype rval =
    RNil
  | RBool bool
  | RNum int
  | RStr string
  | RSeq "rval list"
  | RMap nat

type_synonym store = "(string \<times> rval) list list"

definition make_map :: "store \<Rightarrow> nat \<times> store" where
  "make_map s = (length s, s @ [[]])"

definition load :: "store \<Rightarrow> nat \<Rightarrow> (string \<times> rval) list" where
  "load s a = (if a < length s then s ! a else [])"

definition store_key :: "nat \<Rightarrow> string \<Rightarrow> rval \<Rightarrow> store \<Rightarrow> store" where
  "store_key a key v s = (if a < length s then s[a := AList.update key v (s ! a)] else s)"

text \<open>The schema node, with the values of \<^verbatim>\<open>Enum\<close>, \<^verbatim>\<open>Default\<close> and \<^verbatim>\<open>Extensions\<close> in the
  store, and \<^verbatim>\<open>mergeSchemas\<close> on it.\<close>

datatype rschema = RSchema
  (rType: "string list")
  (rProperties: "(string \<times> rschema) list option")
  (rItems: "rschema option option")
  (rEnum: "rval list")
  (rDefault: rval)
  (rExtensions: "(string \<times> rval) list")
  (rOneOf: "rschema list option")
  (rAllOf: "rschema list option")
  (rAnyOf: "rschema list option")

definition zero_rschema :: rschema where
  "zero_rschema = RSchema [] None None [] RNil [] None None None"

definition rindex :: "(string \<times> rval) list \<Rightarrow> string \<Rightarrow> rval" where
  "rindex m k = (case map_of m k of None \<Rightarrow> RNil | Some v \<Rightarrow> v)"

definition index_rschema :: "(string \<times> rschema) list \<Rightarrow> string \<Rightarrow> rschema" where
  "index_rschema m k = (case map_of m k of None \<Rightarrow> zero_rschema | Some p \<Rightarrow> p)"

definition overlay_r :: "(string \<times> rschema) list \<Rightarrow> (string \<times> rschema) list \<Rightarrow> (string \<times> rschema) list" where
  "overlay_r branchProps rootProps =
     fold (\<lambda>key. AList.update key (index_rschema branchProps key)) (map fst branchProps) rootProps"

definition mergeStep_r :: "rschema \<Rightarrow> rschema \<Rightarrow> rschema" where
  "mergeStep_r branch root =
     RSchema (rType root)
       (Some (overlay_r (entries (rProperties branch)) (entries (rProperties root))))
       (rItems root) (rEnum root) (rDefault root) (rExtensions root)
       (rOneOf branch) (rAllOf branch) (rAnyOf branch)"

definition mergeSchemas_r :: "rschema option \<Rightarrow> rschema list \<Rightarrow> rschema" where
  "mergeSchemas_r root schemas =
     (let r0 = (case root of None \<Rightarrow> zero_rschema | Some s \<Rightarrow> s);
          r1 = RSchema (rType r0)
                 (case rProperties r0 of None \<Rightarrow> Some [] | Some ps \<Rightarrow> Some ps)
                 (rItems r0) (rEnum r0) (rDefault r0) (rExtensions r0)
                 None None None
      in fold mergeStep_r schemas r1)"

subsection \<open>The merge of the mergo library, in place\<close>

text \<open>
  The loop of the library's map case over the keys of the source, on the map objects
  \<open>dst\<close> and \<open>src\<close>. Where the source element and the destination element are both
  maps, the merge goes on in the map object that the destination element holds, and
  writes into it. The nesting of the maps in the store is not bounded by a type, so
  the recursion into a nested map takes fuel; \<open>None\<close> is a call that ran out of it.
\<close>

fun mergeKeys :: "nat \<Rightarrow> nat \<Rightarrow> nat \<Rightarrow> string list \<Rightarrow> store \<Rightarrow> store option" where
  "mergeKeys fuel dst src [] s = Some s"
| "mergeKeys fuel dst src (key # keys) s =
     (case map_of (load s src) key of
        None \<Rightarrow> mergeKeys fuel dst src keys s
      | Some srcElement \<Rightarrow>
          (case srcElement of
             RMap srcMap \<Rightarrow>
               (case map_of (load s dst) key of
                  Some (RMap dstMap) \<Rightarrow>
                    (case fuel of
                       0 \<Rightarrow> None
                     | Suc n \<Rightarrow>
                         (case mergeKeys n dstMap srcMap (map fst (load s srcMap)) s of
                            None \<Rightarrow> None
                          | Some s' \<Rightarrow>
                              mergeKeys fuel dst src keys
                                (if load s' dstMap \<noteq> [] then s'
                                 else store_key dst key srcElement s')))
                | _ \<Rightarrow> mergeKeys fuel dst src keys (store_key dst key srcElement s))
           | _ \<Rightarrow> mergeKeys fuel dst src keys (store_key dst key srcElement s)))"

definition mergo_Merge_r ::
  "nat \<Rightarrow> nat option \<Rightarrow> rval \<Rightarrow> store \<Rightarrow> (failure + nat option \<times> store) option" where
  "mergo_Merge_r fuel dst src s =
     (case src of
        RNil \<Rightarrow> Some (Inl (Err ErrNilArguments))
      | RMap srcMap \<Rightarrow>
          (let (d, s1) = (case dst of None \<Rightarrow> make_map s | Some a \<Rightarrow> (a, s))
           in case mergeKeys fuel d srcMap (map fst (load s1 srcMap)) s1 of
                None \<Rightarrow> None
              | Some s2 \<Rightarrow> Some (Inr (Some d, s2)))
      | _ \<Rightarrow> Some (Inl (Err ErrDifferentArgumentsTypes)))"

subsection \<open>The generator\<close>

text \<open>
  The functions of the generator again, with the result map given by its address.
  \<^verbatim>\<open>result[key] = prop.Default\<close> and \<^verbatim>\<open>result[key] = example\<close> store the value that the
  schema holds, address included. \<^verbatim>\<open>deepcopy.Copy\<close> is a parameter: it returns the
  copy and the store with the map objects of the copy. The recursion takes fuel as
  the merge does.
\<close>

definition ref_of :: "nat option \<Rightarrow> rval" where
  "ref_of t = (case t of None \<Rightarrow> RNil | Some a \<Rightarrow> RMap a)"

definition parseEnum_r :: "string \<Rightarrow> rschema \<Rightarrow> nat \<Rightarrow> store \<Rightarrow> (failure + store) option" where
  "parseEnum_r key p result s =
     (case rEnum p of
        [] \<Rightarrow> Some (Inl PanicIndexOutOfRange)
      | e # _ \<Rightarrow> Some (Inr (store_key result key (if rDefault p \<noteq> RNil then rDefault p else e) s)))"

type_synonym copier = "rschema \<Rightarrow> store \<Rightarrow> rschema \<times> store"

definition parse_measure_r ::
  "(((copier \<times> nat \<times> rschema option \<times> store) + (copier \<times> nat \<times> (string \<times> rschema) list \<times> nat \<times> store))
    + (copier \<times> nat \<times> string \<times> rschema \<times> nat \<times> store) + (copier \<times> nat \<times> string \<times> rschema \<times> nat \<times> store))
   + ((copier \<times> nat \<times> string \<times> rschema \<times> nat \<times> store) + (copier \<times> nat \<times> string \<times> rschema \<times> nat \<times> store))
    + (copier \<times> nat \<times> string \<times> rschema \<times> nat \<times> store) + (copier \<times> nat \<times> string \<times> rschema \<times> nat \<times> store)
   \<Rightarrow> nat \<times> nat \<times> nat" where
  "parse_measure_r =
     case_sum
       (case_sum
          (case_sum (\<lambda>(c, fuel, n, s). (fuel, 3, 0)) (\<lambda>(c, fuel, ps, r, s). (fuel, 2, length ps)))
          (case_sum (\<lambda>(c, fuel, k, p, r, s). (fuel, 1, 0)) (\<lambda>(c, fuel, k, p, r, s). (fuel, 0, 0))))
       (case_sum
          (case_sum (\<lambda>(c, fuel, k, p, r, s). (fuel, 0, 0)) (\<lambda>(c, fuel, k, p, r, s). (fuel, 0, 0)))
          (case_sum (\<lambda>(c, fuel, k, p, r, s). (fuel, 0, 0)) (\<lambda>(c, fuel, k, p, r, s). (fuel, 0, 0))))"

function parseProperties_r :: "copier \<Rightarrow> nat \<Rightarrow> rschema option \<Rightarrow> store \<Rightarrow> (failure + nat option \<times> store) option"
  and parseProperties_loop_r :: "copier \<Rightarrow> nat \<Rightarrow> (string \<times> rschema) list \<Rightarrow> nat \<Rightarrow> store \<Rightarrow> (failure + store) option"
  and parseProperty_r :: "copier \<Rightarrow> nat \<Rightarrow> string \<Rightarrow> rschema \<Rightarrow> nat \<Rightarrow> store \<Rightarrow> (failure + store) option"
  and parseExamples_r :: "copier \<Rightarrow> nat \<Rightarrow> string \<Rightarrow> rschema \<Rightarrow> nat \<Rightarrow> store \<Rightarrow> (failure + store) option"
  and parseObject_r :: "copier \<Rightarrow> nat \<Rightarrow> string \<Rightarrow> rschema \<Rightarrow> nat \<Rightarrow> store \<Rightarrow> (failure + store) option"
  and parseArray_r :: "copier \<Rightarrow> nat \<Rightarrow> string \<Rightarrow> rschema \<Rightarrow> nat \<Rightarrow> store \<Rightarrow> (failure + store) option"
  and parseOneOf_r :: "copier \<Rightarrow> nat \<Rightarrow> string \<Rightarrow> rschema \<Rightarrow> nat \<Rightarrow> store \<Rightarrow> (failure + store) option"
  and parseAnyOf_r :: "copier \<Rightarrow> nat \<Rightarrow> string \<Rightarrow> rschema \<Rightarrow> nat \<Rightarrow> store \<Rightarrow> (failure + store) option"
where
  "parseProperties_r copy fuel None s = Some (Inr (None, s))"
| "parseProperties_r copy fuel (Some tempNode) s =
     (case make_map s of
        (result, s1) \<Rightarrow>
          (case parseProperties_loop_r copy fuel (entries (rProperties tempNode)) result s1 of
             None \<Rightarrow> None
           | Some (Inl err) \<Rightarrow> Some (Inl err)
           | Some (Inr s2) \<Rightarrow> Some (Inr (Some result, s2))))"
| "parseProperties_loop_r copy fuel [] result s = Some (Inr s)"
| "parseProperties_loop_r copy fuel ((key, p) # rest) result s =
     (case parseProperty_r copy fuel key p result s of
        None \<Rightarrow> None
      | Some (Inl err) \<Rightarrow> Some (Inl err)
      | Some (Inr s') \<Rightarrow> parseProperties_loop_r copy fuel rest result s')"
| "parseProperty_r copy fuel key prop result s =
     (if rindex (rExtensions prop) ExamplesKey \<noteq> RNil then parseExamples_r copy fuel key prop result s
      else if length (rEnum prop) > 0 then parseEnum_r key prop result s
      else if Contains (rType prop) ObjectKey then parseObject_r copy fuel key prop result s
      else if rDefault prop \<noteq> RNil then Some (Inr (store_key result key (rDefault prop) s))
      else if Contains (rType prop) ArrayObject \<and> rItems prop \<noteq> None \<and> rItems prop \<noteq> Some None
        then parseArray_r copy fuel key prop result s
      else if rAllOf prop \<noteq> None then Some (Inr s)
      else if rOneOf prop \<noteq> None then parseOneOf_r copy fuel key prop result s
      else if rAnyOf prop \<noteq> None then parseAnyOf_r copy fuel key prop result s
      else Some (Inr s))"
| "parseExamples_r copy fuel key prop result s =
     (case (case rindex (rExtensions prop) ExamplesKey of
              RSeq conv \<Rightarrow> (case conv of [] \<Rightarrow> Inl PanicIndexOutOfRange | e # _ \<Rightarrow> Inr e)
            | RMap conv \<Rightarrow> Inr (RMap conv)
            | _ \<Rightarrow> Inr RNil) of
        Inl err \<Rightarrow> Some (Inl err)
      | Inr example \<Rightarrow>
          if example \<noteq> RNil then
            if Contains (rType prop) ObjectKey then
              (case fuel of
                 0 \<Rightarrow> None
               | Suc n \<Rightarrow>
                   (case parseProperties_r copy n (Some prop) s of
                      None \<Rightarrow> None
                    | Some (Inl err) \<Rightarrow> Some (Inl err)
                    | Some (Inr (t, s1)) \<Rightarrow>
                        (case mergo_Merge_r n t example s1 of
                           None \<Rightarrow> None
                         | Some (Inl err) \<Rightarrow> Some (Inl err)
                         | Some (Inr (t', s2)) \<Rightarrow> Some (Inr (store_key result key (ref_of t') s2)))))
            else Some (Inr (store_key result key example s))
          else Some (Inr s))"
| "parseObject_r copy fuel key prop result s =
     (case fuel of
        0 \<Rightarrow> None
      | Suc n \<Rightarrow>
          (case parseProperties_r copy n (Some prop) s of
             None \<Rightarrow> None
           | Some (Inl err) \<Rightarrow> Some (Inl err)
           | Some (Inr (t, s1)) \<Rightarrow> Some (Inr (store_key result key (ref_of t) s1))))"
| "parseArray_r copy fuel key prop result s =
     (case rItems prop of
        None \<Rightarrow> Some (Inl PanicNilDereference)
      | Some None \<Rightarrow> Some (Inl PanicNilDereference)
      | Some (Some itemsSchema) \<Rightarrow>
          if rDefault itemsSchema \<noteq> RNil then Some (Inr (store_key result key (rDefault itemsSchema) s))
          else
            (case fuel of
               0 \<Rightarrow> None
             | Suc n \<Rightarrow>
                 (case parseProperties_r copy n (Some itemsSchema) s of
                    None \<Rightarrow> None
                  | Some (Inl err) \<Rightarrow> Some (Inl err)
                  | Some (Inr (t, s1)) \<Rightarrow>
                      (case t of
                         None \<Rightarrow> Some (Inr s1)
                       | Some m \<Rightarrow> Some (Inr (store_key result key (RMap m) s1))))))"
| "parseOneOf_r copy fuel key prop result s =
     (case fuel of
        0 \<Rightarrow> None
      | Suc n \<Rightarrow>
          (case copy prop s of
             (downwardSchema, s0) \<Rightarrow>
               (case parseProperties_r copy n
                       (Some (mergeSchemas_r (Some downwardSchema) (elems (rOneOf prop)))) s0 of
                  None \<Rightarrow> None
                | Some (Inl err) \<Rightarrow> Some (Inl err)
                | Some (Inr (t, s1)) \<Rightarrow> Some (Inr (store_key result key (ref_of t) s1)))))"
| "parseAnyOf_r copy fuel key prop result s =
     (case fuel of
        0 \<Rightarrow> None
      | Suc n \<Rightarrow>
          (case copy prop s of
             (downwardSchema, s0) \<Rightarrow>
               (case parseProperties_r copy n
                       (Some (mergeSchemas_r (Some downwardSchema) (elems (rAnyOf prop)))) s0 of
                  None \<Rightarrow> None
                | Some (Inl err) \<Rightarrow> Some (Inl err)
                | Some (Inr (t, s1)) \<Rightarrow> Some (Inr (store_key result key (ref_of t) s1)))))"
  by pat_completeness auto
termination
  by (relation "inv_image (less_than <*lex*> less_than <*lex*> less_than) parse_measure_r")
     (auto simp: parse_measure_def parse_measure_r_def wf_lex_prod)

text \<open>Reading a value of the store back as a value tree.\<close>

fun deref :: "nat \<Rightarrow> store \<Rightarrow> rval \<Rightarrow> val option" where
  "deref fuel s RNil = Some VNil"
| "deref fuel s (RBool b) = Some (VBool b)"
| "deref fuel s (RNum n) = Some (VNum n)"
| "deref fuel s (RStr x) = Some (VStr x)"
| "deref 0 s (RSeq vs) = None"
| "deref (Suc n) s (RSeq vs) = map_option VSeq (those (map (deref n s) vs))"
| "deref 0 s (RMap a) = None"
| "deref (Suc n) s (RMap a) =
     map_option VMap (those (map (\<lambda>(k, v). map_option (Pair k) (deref n s v)) (load s a)))"

text \<open>
  A schema with examples on two levels, as JSON:
  \<^verbatim>\<open>{"type": "object", "x-examples": [{"inner": {"cfg": {"a": 1}}}],
     "properties": {"inner": {"type": "object", "x-examples": [{"cfg": {"b": 2}}]}}}\<close>.
  In the store before the call, the addresses 0 to 2 hold the maps of the outer
  example, the addresses 3 and 4 those of the inner example, and address 5 is the
  result map of the caller.
\<close>

definition inner_schema :: rschema where
  "inner_schema = RSchema [''object''] None None [] RNil [(''x-examples'', RSeq [RMap 3])] None None None"

definition outer_schema :: rschema where
  "outer_schema =
     RSchema [''object''] (Some [(''inner'', inner_schema)]) None [] RNil
       [(''x-examples'', RSeq [RMap 0])] None None None"

definition store_before :: store where
  "store_before =
     [[(''inner'', RMap 1)], [(''cfg'', RMap 2)], [(''a'', RNum 1)],
      [(''cfg'', RMap 4)], [(''b'', RNum 2)],
      []]"

definition store_after :: store where
  "store_after =
     [[(''inner'', RMap 1)], [(''cfg'', RMap 2)], [(''a'', RNum 1)],
      [(''cfg'', RMap 4)], [(''b'', RNum 2), (''a'', RNum 1)],
      [(''outer'', RMap 6)], [(''inner'', RMap 7)], [(''cfg'', RMap 4)]]"

section \<open>Properties of the generator\<close>

subsection \<open>The schema merge\<close>

lemma map_of_fold_update:
  "map_of (fold (\<lambda>key. AList.update key (index_schema m key)) ks ps) k =
     (if k \<in> set ks then Some (index_schema m k) else map_of ps k)"
  by (induction ks arbitrary: ps) (auto simp: update_conv')

lemma map_of_overlay:
  "map_of (overlay bp rp) k = (case map_of bp k of None \<Rightarrow> map_of rp k | Some p \<Rightarrow> Some p)"
proof (cases "map_of bp k")
  case None
  then have "k \<notin> set (map fst bp)"
    by (simp add: map_of_eq_None_iff)
  then have "map_of (overlay bp rp) k = map_of rp k"
    unfolding overlay_def map_of_fold_update by simp
  then show ?thesis
    using None by simp
next
  case (Some p)
  then have "k \<in> set (map fst bp)"
    by (metis map_of_eq_None_iff option.distinct(1) set_map)
  then have "map_of (overlay bp rp) k = Some (index_schema bp k)"
    unfolding overlay_def map_of_fold_update by simp
  then show ?thesis
    using Some by (simp add: index_schema_def)
qed

lemma fold_mergeStep_snoc: "fold mergeStep (bs @ [b]) r = mergeStep b (fold mergeStep bs r)"
  by simp

lemma entries_mergeStep:
  "entries (Properties (mergeStep b r)) = overlay (entries (Properties b)) (entries (Properties r))"
  by (simp add: mergeStep_def entries_def)

lemma map_of_fold_mergeStep:
  "map_of (entries (Properties (fold mergeStep bs r))) k =
     (case filter (\<lambda>b. map_of (entries (Properties b)) k \<noteq> None) (rev bs) of
        [] \<Rightarrow> map_of (entries (Properties r)) k
      | b # _ \<Rightarrow> map_of (entries (Properties b)) k)"
proof (induction bs rule: rev_induct)
  case Nil
  then show ?case by simp
next
  case (snoc b bs)
  show ?case
  proof (cases "map_of (entries (Properties b)) k")
    case None
    then show ?thesis
      using snoc by (simp add: entries_mergeStep map_of_overlay)
  next
    case (Some p)
    then show ?thesis
      by (simp add: entries_mergeStep map_of_overlay)
  qed
qed

lemma fields_fold_mergeStep:
  "Type (fold mergeStep bs r) = Type r"
  "Items (fold mergeStep bs r) = Items r"
  "Enum (fold mergeStep bs r) = Enum r"
  "Default (fold mergeStep bs r) = Default r"
  "Extensions (fold mergeStep bs r) = Extensions r"
  by (induction bs arbitrary: r) (simp_all add: mergeStep_def)

lemma compositions_fold_mergeStep:
  "OneOf (fold mergeStep bs r) = (if bs = [] then OneOf r else OneOf (last bs))"
  "AllOf (fold mergeStep bs r) = (if bs = [] then AllOf r else AllOf (last bs))"
  "AnyOf (fold mergeStep bs r) = (if bs = [] then AnyOf r else AnyOf (last bs))"
  by (induction bs rule: rev_induct) (simp_all add: mergeStep_def)

text \<open>
  Claim C5. For every base schema and every sequence of branches, the properties of
  the node that \<^const>\<open>mergeSchemas\<close> returns are the base's properties overlaid by each
  branch's properties in sequence order: a key is read from the last branch that has
  it, and from the base when no branch has it; the sub-schema is taken whole, not
  merged. The \<^verbatim>\<open>oneOf\<close>, \<^verbatim>\<open>allOf\<close> and \<^verbatim>\<open>anyOf\<close> fields of the result are those of
  the last branch, and nil when there is no branch.
\<close>

theorem mergeSchemas_last_write_wins:
  "map_of (entries (Properties (mergeSchemas (Some base) branches))) key =
     (case filter (\<lambda>b. map_of (entries (Properties b)) key \<noteq> None) (rev branches) of
        [] \<Rightarrow> map_of (entries (Properties base)) key
      | b # _ \<Rightarrow> map_of (entries (Properties b)) key)
   \<and> OneOf (mergeSchemas (Some base) branches) = (if branches = [] then None else OneOf (last branches))
   \<and> AllOf (mergeSchemas (Some base) branches) = (if branches = [] then None else AllOf (last branches))
   \<and> AnyOf (mergeSchemas (Some base) branches) = (if branches = [] then None else AnyOf (last branches))"
proof -
  let ?r1 = "Schema (Type base) (case Properties base of None \<Rightarrow> Some [] | Some ps \<Rightarrow> Some ps)
               (Items base) (Enum base) (Default base) (Extensions base) None None None"
  have m: "mergeSchemas (Some base) branches = fold mergeStep branches ?r1"
    by (simp add: mergeSchemas_def)
  have e: "entries (Properties ?r1) = entries (Properties base)"
    by (cases "Properties base") (simp_all add: entries_def)
  have c: "OneOf ?r1 = None" "AllOf ?r1 = None" "AnyOf ?r1 = None"
    by simp_all
  show ?thesis
    unfolding m map_of_fold_mergeStep compositions_fold_mergeStep e c by simp
qed

theorem mergeSchemas_last_write_wins_witness:
  "map_of (entries (Properties (mergeSchemas
      (Some (Schema [] None None [] VNil [] None None None))
      [Schema [] (Some [(''a'', Schema [] None None [] (VNum 1) [] None None None)]) None [] VNil [] None None None,
       Schema [] (Some [(''a'', Schema [] None None [] (VNum 2) [] None None None),
                        (''b'', Schema [] None None [] (VNum 3) [] None None None)]) None [] VNil [] None None None])))
     ''a''
   = Some (Schema [] None None [] (VNum 2) [] None None None)"
  using mergeSchemas_last_write_wins
    [of "Schema [] None None [] VNil [] None None None"
        "[Schema [] (Some [(''a'', Schema [] None None [] (VNum 1) [] None None None)]) None [] VNil [] None None None,
          Schema [] (Some [(''a'', Schema [] None None [] (VNum 2) [] None None None),
                           (''b'', Schema [] None None [] (VNum 3) [] None None None)]) None [] VNil [] None None None]"
        "''a''"]
  by (simp add: entries_def)

subsection \<open>The precedence of \<^const>\<open>parseProperty\<close>\<close>

text \<open>
  Claim C7. For every property whose \<^verbatim>\<open>x-examples\<close> extension is absent and whose
  \<^verbatim>\<open>enum\<close> is not empty, \<^const>\<open>parseProperty\<close> stores under the key the default when
  a default is set, and the first element of the enumeration otherwise. The default
  is stored by the enumeration rule: the rule of the explicit default is not reached.
\<close>

theorem parseProperty_enum:
  assumes "map_of (Extensions prop) ExamplesKey = None" and "Enum prop = e # es"
  shows "parseProperty key prop result =
           Inr (AList.update key (if Default prop \<noteq> VNil then Default prop else e) result)"
  using assms by (simp add: index_def parseEnum_def)

theorem parseProperty_enum_witness:
  "parseProperty ''mode'' (Schema [''string''] None None [VStr ''a'', VStr ''b'', VStr ''c''] (VStr ''b'') [] None None None) []
     = Inr [(''mode'', VStr ''b'')]
   \<and> parseProperty ''mode'' (Schema [''string''] None None [VStr ''a'', VStr ''b'', VStr ''c''] VNil [] None None None) []
     = Inr [(''mode'', VStr ''a'')]"
  using parseProperty_enum [of "Schema [''string''] None None [VStr ''a'', VStr ''b'', VStr ''c''] (VStr ''b'') [] None None None" "VStr ''a''" "[VStr ''b'', VStr ''c'']" "''mode''" "[]"]
        parseProperty_enum [of "Schema [''string''] None None [VStr ''a'', VStr ''b'', VStr ''c''] VNil [] None None None" "VStr ''a''" "[VStr ''b'', VStr ''c'']" "''mode''" "[]"]
  by simp

text \<open>
  Claim C1 says that a property on which none of the rules 1 to 5 matches and whose
  \<^verbatim>\<open>oneOf\<close> is not empty yields the \<^verbatim>\<open>oneOf\<close> result even when \<^verbatim>\<open>allOf\<close> is set as
  well. The case \<^verbatim>\<open>prop.AllOf != nil\<close> of \<^const>\<open>parseProperty\<close> comes before the case
  of \<^verbatim>\<open>oneOf\<close> and does nothing: here \<^verbatim>\<open>allOf\<close> is an empty, non-nil sequence, the
  property yields no value, and the merge of its \<^verbatim>\<open>oneOf\<close> branches would have
  resolved to a mapping with the key \<open>a\<close>.
\<close>

theorem parseProperty_allOf_shadows_oneOf:
  "parseProperty ''p''
     (Schema [] None None [] VNil []
        (Some [Schema [] (Some [(''a'', Schema [] None None [] (VNum 1) [] None None None)]) None [] VNil [] None None None])
        (Some [])
        None) []
   = Inr []
   \<and> parseProperties (Some (mergeSchemas
        (Some (Copy (Schema [] None None [] VNil []
           (Some [Schema [] (Some [(''a'', Schema [] None None [] (VNum 1) [] None None None)]) None [] VNil [] None None None])
           (Some [])
           None)))
        [Schema [] (Some [(''a'', Schema [] None None [] (VNum 1) [] None None None)]) None [] VNil [] None None None]))
   = Inr (Some [(''a'', VNum 1)])"
  by (simp add: index_def Contains_def mergeSchemas_def mergeStep_def overlay_def index_schema_def
        entries_def Copy_def)

text \<open>
  Claim C1, amended. For every property on which none of the rules 1 to 5 matches
  and whose \<^verbatim>\<open>oneOf\<close> is set: when \<^verbatim>\<open>allOf\<close> is nil, \<^const>\<open>parseProperty\<close> stores under
  the key the mapping obtained by merging the \<^verbatim>\<open>oneOf\<close> branches over a copy of the
  property and resolving the properties of the merged node (a failure of that
  resolution is the failure of the call); when \<^verbatim>\<open>allOf\<close> is not nil, the property
  yields no value.
\<close>

theorem parseProperty_oneOf:
  assumes "index (Extensions prop) ExamplesKey = VNil"
    and "Enum prop = []"
    and "\<not> Contains (Type prop) ObjectKey"
    and "Default prop = VNil"
    and "\<not> (Contains (Type prop) ArrayObject \<and> Items prop \<noteq> None \<and> Items prop \<noteq> Some None)"
    and "OneOf prop = Some branches"
  shows "parseProperty key prop result =
           (if AllOf prop \<noteq> None then Inr result
            else case parseProperties (Some (mergeSchemas (Some (Copy prop)) branches)) of
                   Inl err \<Rightarrow> Inl err
                 | Inr t \<Rightarrow> Inr (AList.update key (of_map t) result))"
  using assms by (auto simp: elems_def)

theorem parseProperty_oneOf_witness:
  "parseProperty ''p''
     (Schema [] None None [] VNil [] 
        (Some [Schema [] (Some [(''a'', Schema [] None None [] (VNum 1) [] None None None)]) None [] VNil [] None None None,
               Schema [] (Some [(''a'', Schema [] None None [] (VNum 2) [] None None None),
                                (''b'', Schema [] None None [] (VNum 3) [] None None None)]) None [] VNil [] None None None])
        None None) []
   = Inr [(''p'', VMap [(''a'', VNum 2), (''b'', VNum 3)])]"
  using parseProperty_oneOf [of
     "Schema [] None None [] VNil [] 
        (Some [Schema [] (Some [(''a'', Schema [] None None [] (VNum 1) [] None None None)]) None [] VNil [] None None None,
               Schema [] (Some [(''a'', Schema [] None None [] (VNum 2) [] None None None),
                                (''b'', Schema [] None None [] (VNum 3) [] None None None)]) None [] VNil [] None None None])
        None None"
     "[Schema [] (Some [(''a'', Schema [] None None [] (VNum 1) [] None None None)]) None [] VNil [] None None None,
       Schema [] (Some [(''a'', Schema [] None None [] (VNum 2) [] None None None),
                        (''b'', Schema [] None None [] (VNum 3) [] None None None)]) None [] VNil [] None None None]"
     "''p''" "[]"]
  by (simp add: index_def Contains_def mergeSchemas_def mergeStep_def overlay_def index_schema_def
        entries_def Copy_def of_map_def elems_def)

text \<open>
  Claim C4 says that an array property whose items schema has no default yields a
  value only when the mapping resolved from the items schema is not empty. The
  test in \<^const>\<open>parseArray\<close> is \<^verbatim>\<open>t != nil\<close>, and \<^const>\<open>parseProperties\<close> returns a
  non-nil map for a non-nil schema: for an array of strings without a default the
  empty mapping is stored under the key.
\<close>

theorem parseArray_empty_mapping_is_stored:
  "parseProperty ''list''
     (Schema [''array''] None (Some (Some (Schema [''string''] None None [] VNil [] None None None))) [] VNil [] None None None) []
   = Inr [(''list'', VMap [])]"
  by (simp add: index_def Contains_def ArrayObject_def ObjectKey_def entries_def)

text \<open>
  Claim C4, amended. For every property whose types include \<^verbatim>\<open>array\<close>, whose items
  schema is set and on which no earlier rule matches: when the items schema has a
  default, that default is stored under the key as it is; otherwise the properties of
  the items schema are resolved into a mapping, and that mapping is stored under the
  key, the empty mapping included.
\<close>

theorem parseProperty_array:
  assumes "index (Extensions prop) ExamplesKey = VNil"
    and "Enum prop = []"
    and "\<not> Contains (Type prop) ObjectKey"
    and "Default prop = VNil"
    and "Contains (Type prop) ArrayObject"
    and "Items prop = Some (Some itemsSchema)"
  shows "parseProperty key prop result =
           (if Default itemsSchema \<noteq> VNil then Inr (AList.update key (Default itemsSchema) result)
            else case parseProperties_loop (entries (Properties itemsSchema)) [] of
                   Inl err \<Rightarrow> Inl err
                 | Inr t \<Rightarrow> Inr (AList.update key (VMap t) result))"
  using assms by (simp split: sum.splits)

theorem parseProperty_array_witness:
  "parseProperty ''list'' (Schema [''array''] None (Some (Some (Schema [''string''] None None [] (VStr ''x'') [] None None None))) [] VNil [] None None None) []
     = Inr [(''list'', VStr ''x'')]
   \<and> parseProperty ''list'' (Schema [''array''] None
         (Some (Some (Schema [''object''] (Some [(''n'', Schema [] None None [] (VNum 1) [] None None None)]) None [] VNil [] None None None)))
         [] VNil [] None None None) []
     = Inr [(''list'', VMap [(''n'', VNum 1)])]"
  using parseProperty_array [of "Schema [''array''] None (Some (Some (Schema [''string''] None None [] (VStr ''x'') [] None None None))) [] VNil [] None None None"
          "Schema [''string''] None None [] (VStr ''x'') [] None None None" "''list''" "[]"]
        parseProperty_array [of "Schema [''array''] None
         (Some (Some (Schema [''object''] (Some [(''n'', Schema [] None None [] (VNum 1) [] None None None)]) None [] VNil [] None None None)))
         [] VNil [] None None None"
          "Schema [''object''] (Some [(''n'', Schema [] None None [] (VNum 1) [] None None None)]) None [] VNil [] None None None" "''list''" "[]"]
  by (simp add: index_def Contains_def ArrayObject_def ObjectKey_def entries_def)

subsection \<open>Properties that yield no value\<close>

lemma put_simps [simp]:
  "put key (Inl err) result = Inl err"
  "put key (Inr None) result = Inr result"
  "put key (Inr (Some v)) result = Inr (AList.update key v result)"
  by (simp_all add: put_def)

lemma parseEnum_put: "\<exists>w. \<forall>result. parseEnum key p result = put key w result"
proof (cases "Enum p")
  case Nil
  then have "\<forall>result. parseEnum key p result = put key (Inl PanicIndexOutOfRange) result"
    by (simp add: parseEnum_def)
  then show ?thesis ..
next
  case (Cons e es)
  then have "\<forall>result. parseEnum key p result
      = put key (Inr (Some (if Default p \<noteq> VNil then Default p else e))) result"
    by (simp add: parseEnum_def)
  then show ?thesis ..
qed

lemma stored_put:
  "\<exists>w. \<forall>result. (case x of Inl err \<Rightarrow> Inl err | Inr t \<Rightarrow> Inr (AList.update key (f t) result))
      = put key w result"
proof (cases x)
  case (Inl err)
  then have "\<forall>result. (case x of Inl err \<Rightarrow> Inl err | Inr t \<Rightarrow> Inr (AList.update key (f t) result))
      = put key (Inl err) result" by simp
  then show ?thesis ..
next
  case (Inr t)
  then have "\<forall>result. (case x of Inl err \<Rightarrow> Inl err | Inr t \<Rightarrow> Inr (AList.update key (f t) result))
      = put key (Inr (Some (f t))) result" by simp
  then show ?thesis ..
qed

lemma parseObject_put: "\<exists>w. \<forall>result. parseObject key p result = put key w result"
  unfolding parseObject.simps by (rule stored_put)

lemma parseOneOf_put: "\<exists>w. \<forall>result. parseOneOf key p result = put key w result"
  unfolding parseOneOf.simps Let_def by (rule stored_put)

lemma parseAnyOf_put: "\<exists>w. \<forall>result. parseAnyOf key p result = put key w result"
  unfolding parseAnyOf.simps Let_def by (rule stored_put)

lemma no_value_put: "\<exists>w. \<forall>result. (Inr result :: failure + vmap) = put key w result"
proof -
  have "\<forall>result. (Inr result :: failure + vmap) = put key (Inr None) result" by simp
  then show ?thesis ..
qed

lemma value_put: "\<exists>w. \<forall>result. (Inr (AList.update key v result) :: failure + vmap) = put key w result"
proof -
  have "\<forall>result. (Inr (AList.update key v result) :: failure + vmap) = put key (Inr (Some v)) result" by simp
  then show ?thesis ..
qed

lemma failure_put: "\<exists>w. \<forall>result. (Inl err :: failure + vmap) = put key w result"
proof -
  have "\<forall>result. (Inl err :: failure + vmap) = put key (Inl err) result" by simp
  then show ?thesis ..
qed

lemma parseArray_put: "\<exists>w. \<forall>result. parseArray key p result = put key w result"
proof (cases "Items p")
  case None
  then show ?thesis unfolding parseArray.simps by (simp add: failure_put)
next
  case (Some i)
  show ?thesis
  proof (cases i)
    case None
    then show ?thesis unfolding parseArray.simps using Some by (simp add: failure_put)
  next
    case inner: (Some itemsSchema)
    show ?thesis
    proof (cases "Default itemsSchema \<noteq> VNil")
      case True
      then show ?thesis unfolding parseArray.simps using Some inner by (simp add: value_put)
    next
      case False
      show ?thesis
      proof (cases "parseProperties (Some itemsSchema)")
        case (Inl err)
        then show ?thesis unfolding parseArray.simps using Some inner False
          by (simp add: failure_put del: parseProperties.simps)
      next
        case (Inr t)
        then show ?thesis unfolding parseArray.simps using Some inner False
          by (cases t) (simp_all add: no_value_put value_put del: parseProperties.simps)
      qed
    qed
  qed
qed

lemma parseExamples_put: "\<exists>w. \<forall>result. parseExamples key p result = put key w result"
proof -
  define c :: "failure + val" where
    "c = (case index (Extensions p) ExamplesKey of
            VSeq conv \<Rightarrow> (case conv of [] \<Rightarrow> Inl PanicIndexOutOfRange | e # _ \<Rightarrow> Inr e)
          | VMap conv \<Rightarrow> Inr (VMap conv)
          | _ \<Rightarrow> Inr VNil)"
  have eq: "parseExamples key p result =
      (case c of
         Inl err \<Rightarrow> Inl err
       | Inr example \<Rightarrow>
           if example \<noteq> VNil then
             if Contains (Type p) ObjectKey then
               (case parseProperties (Some p) of
                  Inl err \<Rightarrow> Inl err
                | Inr t \<Rightarrow>
                    (case mergo_Merge t example of
                       Inl err \<Rightarrow> Inl err
                     | Inr t' \<Rightarrow> Inr (AList.update key (VMap t') result)))
             else Inr (AList.update key example result)
           else Inr result)" for result
    unfolding c_def parseExamples.simps by (rule refl)
  show ?thesis
  proof (cases c)
    case (Inl err)
    then show ?thesis unfolding eq by (simp add: failure_put)
  next
    case (Inr example)
    show ?thesis
    proof (cases "example = VNil")
      case True
      then show ?thesis unfolding eq using Inr by (simp add: no_value_put)
    next
      case nonnil: False
      show ?thesis
      proof (cases "Contains (Type p) ObjectKey")
        case False
        then show ?thesis unfolding eq using Inr nonnil by (simp add: value_put)
      next
        case True
        show ?thesis
        proof (cases "parseProperties (Some p)")
          case (Inl err)
          then show ?thesis unfolding eq using Inr nonnil True
            by (simp add: failure_put del: parseProperties.simps)
        next
          case t: (Inr t)
          have "\<exists>w. \<forall>result.
                  (case mergo_Merge t example of
                     Inl err \<Rightarrow> Inl err
                   | Inr t' \<Rightarrow> Inr (AList.update key (VMap t') result)) = put key w result"
            by (rule stored_put)
          then show ?thesis unfolding eq using Inr nonnil True t
            by (simp del: parseProperties.simps)
        qed
      qed
    qed
  qed
qed

lemma if_put:
  assumes "\<exists>w. \<forall>result. f result = put key w result"
    and "\<exists>w. \<forall>result. g result = put key w result"
  shows "\<exists>w. \<forall>result. (if c then f result else g result) = put key w result"
  using assms by (cases c) simp_all

lemma parseProperty_put: "\<exists>w. \<forall>result. parseProperty key p result = put key w result"
  unfolding parseProperty.simps
  by (intro if_put parseExamples_put parseEnum_put parseObject_put parseArray_put
        parseOneOf_put parseAnyOf_put no_value_put value_put)

lemma parseProperty_cases:
  assumes "parseProperty key p result = Inr result'"
  shows "result' = result \<or> (\<exists>v. result' = AList.update key v result)"
proof -
  obtain w where w: "\<And>r. parseProperty key p r = put key w r"
    using parseProperty_put [of key p] by blast
  from assms show ?thesis
    unfolding w by (auto simp: put_def split: sum.splits option.splits)
qed

lemma parseProperty_keys:
  assumes "parseProperty key p result = Inr result'"
  shows "fst ` set result' \<subseteq> insert key (fst ` set result)"
proof -
  from parseProperty_cases [OF assms] show ?thesis
  proof
    assume "result' = result"
    then show ?thesis by auto
  next
    assume "\<exists>v. result' = AList.update key v result"
    then obtain v where "result' = AList.update key v result" ..
    then show ?thesis
      using dom_update [of key v result] by simp
  qed
qed

lemma parseProperty_no_value:
  assumes "parseProperty key p [] = Inr []"
  shows "parseProperty key p result = Inr result"
proof -
  obtain w where w: "\<And>r. parseProperty key p r = put key w r"
    using parseProperty_put [of key p] by blast
  from assms have "w = Inr None"
    unfolding w by (auto simp: put_def split: sum.splits option.splits)
  then show ?thesis
    unfolding w by simp
qed

lemma parseProperties_loop_omits:
  assumes "parseProperties_loop ps result = Inr m"
    and "k \<notin> fst ` set result"
    and "\<And>p. (k, p) \<in> set ps \<Longrightarrow> parseProperty k p [] = Inr []"
  shows "k \<notin> fst ` set m"
  using assms
proof (induction ps arbitrary: result)
  case Nil
  then show ?case by simp
next
  case (Cons kp ps)
  obtain k' p' where kp: "kp = (k', p')" by (cases kp)
  from Cons.prems(1) kp obtain r where
    step: "parseProperty k' p' result = Inr r" and rest: "parseProperties_loop ps r = Inr m"
    by (auto simp del: parseProperty.simps split: sum.splits)
  have "k \<notin> fst ` set r"
  proof (cases "k' = k")
    case True
    then have "parseProperty k p' [] = Inr []"
      using Cons.prems(3) [of p'] kp by simp
    then have "r = result"
      using parseProperty_no_value [of k p' result] step True by simp
    then show ?thesis using Cons.prems(2) by simp
  next
    case False
    then show ?thesis
      using parseProperty_keys [OF step] Cons.prems(2) by auto
  qed
  moreover have "\<And>p. (k, p) \<in> set ps \<Longrightarrow> parseProperty k p [] = Inr []"
    using Cons.prems(3) by simp
  ultimately show ?case
    using Cons.IH [OF rest] by blast
qed

lemma parseExamples_nil_candidate:
  assumes "index (Extensions p) ExamplesKey \<noteq> VNil" and "yields_no_value p"
  shows "parseExamples key p result = Inr result"
  using assms
  by (cases "index (Extensions p) ExamplesKey")
     (auto simp: yields_no_value_def split: list.splits)

lemma parseProperty_yields_no_value:
  assumes "yields_no_value p"
  shows "parseProperty key p result = Inr result"
proof (cases "index (Extensions p) ExamplesKey \<noteq> VNil")
  case True
  then show ?thesis
    using parseExamples_nil_candidate [OF True assms, of key result]
    by (simp del: parseExamples.simps)
next
  case False
  then show ?thesis
    using assms by (auto simp: yields_no_value_def)
qed

lemma parseProperty_writes:
  assumes "parseProperty key p [] = Inr []"
  shows "yields_no_value p"
proof (cases "index (Extensions p) ExamplesKey \<noteq> VNil")
  case True
  then have "parseExamples key p [] = Inr []"
    using assms by (simp del: parseExamples.simps)
  then show ?thesis
    using True
    by (cases "index (Extensions p) ExamplesKey")
       (auto simp: yields_no_value_def split: list.splits if_splits sum.splits)
next
  case False
  then show ?thesis
    using assms
    by (auto simp: yields_no_value_def parseEnum_def
          split: list.splits if_splits sum.splits option.splits)
qed

text \<open>
  Claim C9. For every schema whose properties have distinct keys, as the keys of a
  Go map are, and every property of it that resolves to no value, the mapping that
  \<^const>\<open>parseProperties\<close> returns has no entry under the key of that property, not even
  one that holds nil. The properties that resolve to no value are those of
  \<^const>\<open>yields_no_value\<close>, a condition on the fields of the property: among them are
  the property on which only \<^verbatim>\<open>allOf\<close> is set and every property that matches none
  of the cases of \<^const>\<open>parseProperty\<close>. On such a property \<^const>\<open>parseProperty\<close>
  returns the result map as it was given.
\<close>

theorem parseProperties_omits_no_value:
  assumes "parseProperties (Some s) = Inr (Some m)"
    and "distinct (map fst (entries (Properties s)))"
    and "(k, p) \<in> set (entries (Properties s))"
    and "yields_no_value p"
  shows "parseProperty k p result = Inr result \<and> map_of m k = None"
proof
  show "parseProperty k p result = Inr result"
    using assms(4) by (rule parseProperty_yields_no_value)
next
  from assms(1) have loop: "parseProperties_loop (entries (Properties s)) [] = Inr m"
    by (simp split: sum.splits)
  have "parseProperty k q [] = Inr []" if "(k, q) \<in> set (entries (Properties s))" for q
  proof -
    from that assms(2,3) have "q = p"
      by (meson eq_key_imp_eq_value)
    then show ?thesis
      using parseProperty_yields_no_value [OF assms(4), of k "[]"] by simp
  qed
  then have "k \<notin> fst ` set m"
    using parseProperties_loop_omits [OF loop] by simp
  then show "map_of m k = None"
    by (simp add: map_of_eq_None_iff)
qed

theorem parseProperties_omits_no_value_witness:
  "parseProperties (Some (Schema [''object'']
      (Some [(''kept'', Schema [] None None [] (VNum 1) [] None None None),
             (''dropped'', Schema [] None None [] VNil [] None (Some [Schema [] None None [] (VNum 2) [] None None None]) None),
             (''empty'', Schema [''string''] None None [] VNil [] None None None)])
      None [] VNil [] None None None))
     = Inr (Some [(''kept'', VNum 1)])
   \<and> yields_no_value (Schema [] None None [] VNil [] None (Some [Schema [] None None [] (VNum 2) [] None None None]) None)
   \<and> map_of [(''kept'', VNum 1)] ''dropped'' = None"
  using parseProperties_omits_no_value
    [of "Schema [''object'']
      (Some [(''kept'', Schema [] None None [] (VNum 1) [] None None None),
             (''dropped'', Schema [] None None [] VNil [] None (Some [Schema [] None None [] (VNum 2) [] None None None]) None),
             (''empty'', Schema [''string''] None None [] VNil [] None None None)])
      None [] VNil [] None None None"
      "[(''kept'', VNum 1)]" "''dropped''"
      "Schema [] None None [] VNil [] None (Some [Schema [] None None [] (VNum 2) [] None None None]) None"
      "[]"]
  by (simp add: index_def Contains_def entries_def yields_no_value_def ObjectKey_def ArrayObject_def)

subsection \<open>The merge of value trees\<close>

lemma mergeElement_update:
  "mergeElement dst key srcElement = AList.update key (mergedElement srcElement (map_of dst key)) dst"
  by (cases srcElement) (simp_all add: mergedElement_def split: option.splits val.splits)

lemma map_of_mergeElement:
  "map_of (mergeElement dst key srcElement) k =
     (if k = key then Some (mergedElement srcElement (map_of dst key)) else map_of dst k)"
  by (simp add: mergeElement_update update_conv')

lemma deepMerge_other:
  "k \<notin> fst ` set src \<Longrightarrow> map_of (deepMerge dst src) k = map_of dst k"
proof (induction src arbitrary: dst)
  case Nil
  then show ?case by simp
next
  case (Cons a src)
  obtain key e where a: "a = (key, e)" by (cases a)
  from Cons.prems a have "k \<noteq> key" and "k \<notin> fst ` set src" by auto
  then show ?case
    using Cons.IH [of "mergeElement dst key e"] a by (simp add: map_of_mergeElement)
qed

lemma deepMerge_key:
  "distinct (map fst src) \<Longrightarrow> map_of src k = Some e \<Longrightarrow>
   map_of (deepMerge dst src) k = Some (mergedElement e (map_of dst k))"
proof (induction src arbitrary: dst)
  case Nil
  then show ?case by simp
next
  case (Cons a src)
  obtain key e' where a: "a = (key, e')" by (cases a)
  show ?case
  proof (cases "k = key")
    case True
    then have "e' = e" using Cons.prems(2) a by simp
    moreover have "k \<notin> fst ` set src" using Cons.prems(1) a True by simp
    ultimately show ?thesis
      using a True deepMerge_other [of k src "mergeElement dst key e"]
      by (simp add: map_of_mergeElement)
  next
    case False
    then have "map_of src k = Some e" using Cons.prems(2) a by simp
    moreover have "distinct (map fst src)" using Cons.prems(1) by simp
    ultimately have "map_of (deepMerge (mergeElement dst key e') src) k
        = Some (mergedElement e (map_of (mergeElement dst key e') k))"
      using Cons.IH by blast
    then show ?thesis
      using a False by (simp add: map_of_mergeElement)
  qed
qed


subsection \<open>The vendor examples\<close>

text \<open>
  Claim C8 says that every key of the candidate example replaces the value
  synthesized for that key. The merge of the library goes into nested maps: where the
  example and the synthesized mapping both hold a mapping under a key, the two are
  merged, and the synthesized entries that the example does not have stay. Here the
  example holds \<open>y = {a: 1}\<close>, the sub-property \<open>y\<close> resolves to \<open>{b: 2}\<close>, and the
  result holds both \<open>a\<close> and \<open>b\<close> under \<open>y\<close>.
\<close>

theorem example_merge_keeps_synthesized_subkeys:
  "parseProperty ''p''
     (Schema [''object'']
        (Some [(''y'', Schema [''object''] (Some [(''b'', Schema [] None None [] (VNum 2) [] None None None)])
                         None [] VNil [] None None None)])
        None [] VNil [(''x-examples'', VMap [(''y'', VMap [(''a'', VNum 1)])])] None None None) []
     = Inr [(''p'', VMap [(''y'', VMap [(''b'', VNum 2), (''a'', VNum 1)])])]
   \<and> VMap [(''b'', VNum 2), (''a'', VNum 1)] \<noteq> VMap [(''a'', VNum 1)]"
  by (simp add: index_def ExamplesKey_def Contains_def ObjectKey_def entries_def of_map_def
        mergo_Merge_def)

text \<open>
  Claim C8, amended. For every property whose \<^verbatim>\<open>x-examples\<close> value is a mapping, or a
  sequence whose first element is a mapping, and whose types include \<^verbatim>\<open>object\<close>:
  when the sub-properties resolve to a mapping, \<^const>\<open>parseProperty\<close> stores under the
  key the merge of the candidate example (its keys distinct) over that mapping. In
  the merge every synthesized key that the example does not have is kept; a key of
  the example whose example value or synthesized value is not a mapping holds the
  example value; where both are mappings, it holds the merge of the example mapping
  over the synthesized one, by the same rule.
\<close>

theorem parseExamples_merge:
  assumes "index (Extensions p) ExamplesKey = VMap ex
           \<or> index (Extensions p) ExamplesKey = VSeq (VMap ex # rest)"
    and "Contains (Type p) ObjectKey"
    and "parseProperties (Some p) = Inr (Some t)"
    and "distinct (map fst ex)"
  shows "parseProperty key p result = Inr (AList.update key (VMap (deepMerge t ex)) result)
     \<and> map_of (deepMerge t ex) k =
         (case map_of ex k of
            None \<Rightarrow> map_of t k
          | Some (VMap exampleMap) \<Rightarrow>
              (case map_of t k of
                 Some (VMap synthesized) \<Rightarrow> Some (VMap (deepMerge synthesized exampleMap))
               | _ \<Rightarrow> Some (VMap exampleMap))
          | Some example \<Rightarrow> Some example)"
proof
  from assms(1) have c: "index (Extensions p) ExamplesKey \<noteq> VNil" by auto
  have "parseExamples key p result = Inr (AList.update key (VMap (deepMerge t ex)) result)"
    using assms(1,2,3) by (auto simp: mergo_Merge_def entries_def simp del: parseProperties.simps)
  then show "parseProperty key p result = Inr (AList.update key (VMap (deepMerge t ex)) result)"
    using c by (simp del: parseExamples.simps)
next
  show "map_of (deepMerge t ex) k =
         (case map_of ex k of
            None \<Rightarrow> map_of t k
          | Some (VMap exampleMap) \<Rightarrow>
              (case map_of t k of
                 Some (VMap synthesized) \<Rightarrow> Some (VMap (deepMerge synthesized exampleMap))
               | _ \<Rightarrow> Some (VMap exampleMap))
          | Some example \<Rightarrow> Some example)"
  proof (cases "map_of ex k")
    case None
    then have "k \<notin> fst ` set ex" by (simp add: map_of_eq_None_iff)
    then show ?thesis using None by (simp add: deepMerge_other)
  next
    case (Some e)
    then show ?thesis
      using deepMerge_key [OF assms(4) Some, of t]
      by (simp add: mergedElement_def split: val.splits option.splits)
  qed
qed

theorem parseExamples_merge_witness:
  "parseProperty ''p''
     (Schema [''object''] (Some [(''y'', Schema [] None None [] (VNum 2) [] None None None)])
        None [] VNil [(''x-examples'', VMap [(''x'', VNum 1)])] None None None) []
     = Inr [(''p'', VMap [(''y'', VNum 2), (''x'', VNum 1)])]
   \<and> parseProperty ''p''
     (Schema [''object''] (Some [(''y'', Schema [] None None [] (VNum 2) [] None None None)])
        None [] VNil [(''x-examples'', VSeq [VMap [(''y'', VNum 9)]])] None None None) []
     = Inr [(''p'', VMap [(''y'', VNum 9)])]
   \<and> map_of (deepMerge [(''y'', VNum 2)] [(''x'', VNum 1)]) ''y'' = Some (VNum 2)"
  using parseExamples_merge [of
      "Schema [''object''] (Some [(''y'', Schema [] None None [] (VNum 2) [] None None None)])
        None [] VNil [(''x-examples'', VMap [(''x'', VNum 1)])] None None None"
      "[(''x'', VNum 1)]" "[]" "[(''y'', VNum 2)]" "''p''" "[]" "''y''"]
    parseExamples_merge [of
      "Schema [''object''] (Some [(''y'', Schema [] None None [] (VNum 2) [] None None None)])
        None [] VNil [(''x-examples'', VSeq [VMap [(''y'', VNum 9)]])] None None None"
      "[(''y'', VNum 9)]" "[]" "[(''y'', VNum 2)]" "''p''" "[]" "''y''"]
  by (simp add: index_def ExamplesKey_def Contains_def ObjectKey_def entries_def)

text \<open>
  Claim C10 says that a property whose \<^verbatim>\<open>x-examples\<close> value is a sequence, the empty
  sequence included, is resolved without a runtime fault. \<^const>\<open>parseExamples\<close> reads
  \<^verbatim>\<open>conv[0]\<close> without looking at the length: on the empty sequence the read is out of
  range and the call panics.
\<close>

theorem parseExamples_empty_sequence_panics:
  "parseProperty ''p'' (Schema [] None None [] VNil [(''x-examples'', VSeq [])] None None None) []
     = Inl PanicIndexOutOfRange"
  by (simp add: index_def ExamplesKey_def)

subsection \<open>The overlay of the digests\<close>





subsection \<open>The entry point and the \<^verbatim>\<open>values\<close> key\<close>

text \<open>
  Claim C2 says that the entry point fails when either of the two schema documents
  lacks the key \<^verbatim>\<open>values\<close>. For the global document the code tests
  \<^verbatim>\<open>ok && values != nil\<close> and goes on with the zero schema when the key is missing:
  here the global document has no key at all and the call returns the render context.
\<close>

theorem ComposeValuesFromSchemas_global_without_values:
  "ComposeValuesFromSchemas
     \<lparr>GetName = ''node-manager'', GetNamespace = ''d8-node'', GetMetadata = ()\<rparr>
     \<lparr>NewValuesValidator = Inr (Some
        \<lparr>GlobalSchemaStorage = \<lparr>Schemas = Some []\<rparr>,
         ModuleSchemaStorages =
           [(''node-manager'',
             \<lparr>Schemas = Some [(''values'',
                Some (Schema [''object''] (Some [(''replicas'', Schema [''integer''] None None [] (VNum 1) [] None None None)])
                        None [] VNil [] None None None))]\<rparr>)]\<rparr>),
      ToLowerCamel = ''nodeManager'',
      digestsFileMissingOrEmpty = True,
      getModulesImagesDigestsFromLocalPath = Inl (Err (ErrExternal ''no file'')),
      DefaultImagesDigests = [(''common'', VMap [(''img'', VStr ''sha256:abc'')])],
      DefaultCapabilities = [''v1'']\<rparr>
   = Inr (Some
       \<lparr>Chart = (),
        Capabilities = [''v1'', ''autoscaling.k8s.io/v1/VerticalPodAutoscaler''],
        Release = [(''Name'', VStr ''node-manager''), (''Namespace'', VStr ''d8-node''),
                   (''IsUpgrade'', VBool True), (''IsInstall'', VBool True),
                   (''Revision'', VNum 0), (''Service'', VStr ''Helm'')],
        Values = Some [(''nodeManager'', VMap [(''replicas'', VNum 1)]),
                       (''global'', VMap [(''modulesImages'',
                          VMap [(''digests'', VMap [(''common'', VMap [(''img'', VStr ''sha256:abc'')])])])])]\<rparr>)"
  by (simp add: ComposeValuesFromSchemas_def entries_def GetModulesImagesDigests_def
        helmFormatModuleImages_def Do_def NewOpenAPIValuesGenerator_def set_Default_def
        set_Properties_def zero_schema_def index_def Contains_def ObjectKey_def
        applyDigests_def mergo_Merge_def of_map_def)

lemma helmFormatModuleImages_validator:
  "helmFormatModuleImages m (c\<lparr>NewValuesValidator := v\<rparr>) rawValues = helmFormatModuleImages m c rawValues"
  by (simp add: helmFormatModuleImages_def GetModulesImagesDigests_def)

text \<open>
  Claim C2, amended. When the schemas are loaded and the module has a schema
  document: if that document lacks the key \<^verbatim>\<open>values\<close>, or holds nil under it,
  \<^const>\<open>ComposeValuesFromSchemas\<close> returns the error that names the module. If the
  global document lacks the key, the call returns what it returns on a global
  document whose \<^verbatim>\<open>values\<close> is the empty schema: the absence is no error.
\<close>

theorem ComposeValuesFromSchemas_values_key:
  assumes "NewValuesValidator c = Inr (Some valueValidator)"
    and "map_of (ModuleSchemaStorages valueValidator) (GetName m) = Some storage"
    and "Schemas storage = Some schemas"
  shows "(map_of schemas ''values'' = None \<or> map_of schemas ''values'' = Some None \<longrightarrow>
            ComposeValuesFromSchemas m c = Inl (Err (ErrCannotFindValuesSchema (GetName m))))
     \<and> (map_of (entries (Schemas (GlobalSchemaStorage valueValidator))) ''values'' = None \<longrightarrow>
            ComposeValuesFromSchemas m c =
            ComposeValuesFromSchemas m
              (c\<lparr>NewValuesValidator :=
                   Inr (Some (valueValidator\<lparr>GlobalSchemaStorage :=
                                \<lparr>Schemas = Some [(''values'', Some zero_schema)]\<rparr>\<rparr>))\<rparr>))"
  using assms
  by (auto simp: ComposeValuesFromSchemas_def entries_def helmFormatModuleImages_validator
        simp del: parseProperties.simps split: option.splits cong: sum.case_cong)

theorem ComposeValuesFromSchemas_values_key_witness:
  "ComposeValuesFromSchemas
     \<lparr>GetName = ''node-manager'', GetNamespace = ''d8-node'', GetMetadata = ()\<rparr>
     \<lparr>NewValuesValidator = Inr (Some
        \<lparr>GlobalSchemaStorage = \<lparr>Schemas = Some [(''values'', Some zero_schema)]\<rparr>,
         ModuleSchemaStorages = [(''node-manager'', \<lparr>Schemas = Some [(''config-values'', Some zero_schema)]\<rparr>)]\<rparr>),
      ToLowerCamel = ''nodeManager'',
      digestsFileMissingOrEmpty = True,
      getModulesImagesDigestsFromLocalPath = Inl (Err (ErrExternal ''no file'')),
      DefaultImagesDigests = [],
      DefaultCapabilities = []\<rparr>
   = Inl (Err (ErrCannotFindValuesSchema ''node-manager''))
   \<and> ComposeValuesFromSchemas
     \<lparr>GetName = ''node-manager'', GetNamespace = ''d8-node'', GetMetadata = ()\<rparr>
     \<lparr>NewValuesValidator = Inr (Some
        \<lparr>GlobalSchemaStorage = \<lparr>Schemas = Some []\<rparr>,
         ModuleSchemaStorages = [(''node-manager'', \<lparr>Schemas = Some [(''values'', Some zero_schema)]\<rparr>)]\<rparr>),
      ToLowerCamel = ''nodeManager'',
      digestsFileMissingOrEmpty = True,
      getModulesImagesDigestsFromLocalPath = Inl (Err (ErrExternal ''no file'')),
      DefaultImagesDigests = [],
      DefaultCapabilities = []\<rparr>
   = ComposeValuesFromSchemas
     \<lparr>GetName = ''node-manager'', GetNamespace = ''d8-node'', GetMetadata = ()\<rparr>
     \<lparr>NewValuesValidator = Inr (Some
        \<lparr>GlobalSchemaStorage = \<lparr>Schemas = Some [(''values'', Some zero_schema)]\<rparr>,
         ModuleSchemaStorages = [(''node-manager'', \<lparr>Schemas = Some [(''values'', Some zero_schema)]\<rparr>)]\<rparr>),
      ToLowerCamel = ''nodeManager'',
      digestsFileMissingOrEmpty = True,
      getModulesImagesDigestsFromLocalPath = Inl (Err (ErrExternal ''no file'')),
      DefaultImagesDigests = [],
      DefaultCapabilities = []\<rparr>"
  using ComposeValuesFromSchemas_values_key [of
     "\<lparr>NewValuesValidator = Inr (Some
        \<lparr>GlobalSchemaStorage = \<lparr>Schemas = Some [(''values'', Some zero_schema)]\<rparr>,
         ModuleSchemaStorages = [(''node-manager'', \<lparr>Schemas = Some [(''config-values'', Some zero_schema)]\<rparr>)]\<rparr>),
      ToLowerCamel = ''nodeManager'',
      digestsFileMissingOrEmpty = True,
      getModulesImagesDigestsFromLocalPath = Inl (Err (ErrExternal ''no file'')),
      DefaultImagesDigests = [],
      DefaultCapabilities = []\<rparr>"
     "\<lparr>GlobalSchemaStorage = \<lparr>Schemas = Some [(''values'', Some zero_schema)]\<rparr>,
         ModuleSchemaStorages = [(''node-manager'', \<lparr>Schemas = Some [(''config-values'', Some zero_schema)]\<rparr>)]\<rparr>"
     "\<lparr>GetName = ''node-manager'', GetNamespace = ''d8-node'', GetMetadata = ()\<rparr>"
     "\<lparr>Schemas = Some [(''config-values'', Some zero_schema)]\<rparr>"
     "[(''config-values'', Some zero_schema)]"]
   ComposeValuesFromSchemas_values_key [of
     "\<lparr>NewValuesValidator = Inr (Some
        \<lparr>GlobalSchemaStorage = \<lparr>Schemas = Some []\<rparr>,
         ModuleSchemaStorages = [(''node-manager'', \<lparr>Schemas = Some [(''values'', Some zero_schema)]\<rparr>)]\<rparr>),
      ToLowerCamel = ''nodeManager'',
      digestsFileMissingOrEmpty = True,
      getModulesImagesDigestsFromLocalPath = Inl (Err (ErrExternal ''no file'')),
      DefaultImagesDigests = [],
      DefaultCapabilities = []\<rparr>"
     "\<lparr>GlobalSchemaStorage = \<lparr>Schemas = Some []\<rparr>,
         ModuleSchemaStorages = [(''node-manager'', \<lparr>Schemas = Some [(''values'', Some zero_schema)]\<rparr>)]\<rparr>"
     "\<lparr>GetName = ''node-manager'', GetNamespace = ''d8-node'', GetMetadata = ()\<rparr>"
     "\<lparr>Schemas = Some [(''values'', Some zero_schema)]\<rparr>"
     "[(''values'', Some zero_schema)]"]
  by (simp add: entries_def)

subsection \<open>The input schema after a call\<close>

text \<open>
  Claim C6 says that resolving a property never changes the schema node it is given.
  \<^verbatim>\<open>parseOneOf\<close> and \<^verbatim>\<open>parseAnyOf\<close> merge into a deep copy, but \<^verbatim>\<open>parseExamples\<close>
  merges the example into a map \<open>t\<close> whose entries can hold maps of the schema: the
  resolution of \<open>inner\<close> stores the map \<open>cfg\<close> of the inner example in its result, and the
  merge of the outer example over that result writes the key \<open>a\<close> into this map. After
  the call on the schema above, the \<^verbatim>\<open>x-examples\<close> of the node \<open>inner\<close> read
  \<open>[{cfg: {b: 2, a: 1}}]\<close>, whatever the copy function is.
\<close>

theorem parseExamples_mutates_input_schema:
  "parseProperty_r copy 5 ''outer'' outer_schema 5 store_before = Some (Inr store_after)
   \<and> deref 5 store_before (rindex (rExtensions inner_schema) ExamplesKey)
       = Some (VSeq [VMap [(''cfg'', VMap [(''b'', VNum 2)])]])
   \<and> deref 5 store_after (rindex (rExtensions inner_schema) ExamplesKey)
       = Some (VSeq [VMap [(''cfg'', VMap [(''b'', VNum 2), (''a'', VNum 1)])]])"
  by (simp add: outer_schema_def inner_schema_def store_before_def store_after_def
        rindex_def ExamplesKey_def Contains_def ObjectKey_def entries_def make_map_def
        load_def store_key_def mergo_Merge_r_def ref_of_def eval_nat_numeral)

end
